theory Spec2Isabelle
  imports Main "HOL-Library.Sublist" "HOL-Library.Multiset"
begin

section \<open>The automaton object (automata.h)\<close>

text \<open>
  The class \<open>AbstractDFA\<close> has four fields. A state is a C++ \<open>int\<close> of 32 bits; it is
  modelled by a HOL \<open>int\<close>, and every place where the source narrows a \<open>size_t\<close> to
  \<open>int\<close> or adds one to an \<open>int\<close> applies \<open>int32_of\<close>, the two's complement value of
  the result (signed overflow is undefined in C++; the model takes the wrap-around the
  compiled code shows). Lengths are \<open>size_t\<close> values of 64 bits. The transition function
  is a \<open>std::map\<close> keyed by \<open>pair<int,char>\<close>, modelled by a partial function; the
  accepting states are a \<open>std::vector<int>\<close>, modelled by a list.
\<close>

type_synonym tpair = "int \<times> char"

record AbstractDFA =
  actState :: int
  numStates :: int
  transitionF :: "tpair \<rightharpoonup> int"
  finalStates :: "int list"

definition int32_of :: "int \<Rightarrow> int" where
  "int32_of x = (x + 2 ^ 31) mod 2 ^ 32 - 2 ^ 31"

definition initialState :: int where
  "initialState = 0"

definition trapState :: int where
  "trapState = - 1"

text \<open>
  The dynamic class of an object decides which \<open>doStep\<close> the virtual call in \<open>run\<close>
  reaches: only \<open>CommentDFA\<close> overrides it.
\<close>

datatype dfa_class = AbstractDFA_cls | WordDFA_cls | CommentDFA_cls

section \<open>The generic engine (the implemented translation unit)\<close>

text \<open>\<open>AbstractDFA::AbstractDFA(int noStates)\<close>: the map and the vector start empty.\<close>

definition AbstractDFA_init :: "int \<Rightarrow> AbstractDFA" where
  "AbstractDFA_init noStates =
     \<lparr>actState = initialState, numStates = noStates,
      transitionF = Map.empty, finalStates = []\<rparr>"

text \<open>\<open>std::map::insert\<close> keeps the old entry when the key is already present.\<close>

definition map_insert :: "(tpair \<rightharpoonup> int) \<Rightarrow> tpair \<Rightarrow> int \<Rightarrow> (tpair \<rightharpoonup> int)" where
  "map_insert m k v = (case m k of None \<Rightarrow> m(k \<mapsto> v) | Some old \<Rightarrow> m)"

definition insert_transition :: "tpair \<Rightarrow> int \<Rightarrow> AbstractDFA \<Rightarrow> AbstractDFA" where
  "insert_transition k v d = d\<lparr>transitionF := map_insert (transitionF d) k v\<rparr>"

definition push_back_final :: "int \<Rightarrow> AbstractDFA \<Rightarrow> AbstractDFA" where
  "push_back_final s d = d\<lparr>finalStates := finalStates d @ [s]\<rparr>"

definition reset :: "AbstractDFA \<Rightarrow> AbstractDFA" where
  "reset d = d\<lparr>actState := initialState\<rparr>"

definition AbstractDFA_doStep :: "char \<Rightarrow> AbstractDFA \<Rightarrow> AbstractDFA" where
  "AbstractDFA_doStep letter d =
     (if actState d \<noteq> trapState
      then (case transitionF d (actState d, letter) of
              Some target \<Rightarrow> d\<lparr>actState := target\<rparr>
            | None \<Rightarrow> d\<lparr>actState := trapState\<rparr>)
      else d)"

text \<open>
  \<open>AbstractDFA::isAccepting\<close> walks the vector and returns at the first element equal
  to the current state. The method is not \<open>const\<close>, so the model returns the object
  next to the answer.
\<close>

fun isAccepting_loop :: "int list \<Rightarrow> int \<Rightarrow> bool" where
  "isAccepting_loop [] s = False"
| "isAccepting_loop (it # rest) s = (if it = s then True else isAccepting_loop rest s)"

definition isAccepting :: "AbstractDFA \<Rightarrow> bool \<times> AbstractDFA" where
  "isAccepting d = (isAccepting_loop (finalStates d) (actState d), d)"

section \<open>The comment automaton's step\<close>

text \<open>
  \<open>CommentDFA::doStep\<close> is a \<open>switch\<close> on the current state; the newline of the
  source is the character with code 10.
\<close>

definition CommentDFA_doStep :: "char \<Rightarrow> AbstractDFA \<Rightarrow> AbstractDFA" where
  "CommentDFA_doStep letter d =
     (if actState d = 2 then
        (if letter = CHR 0x0A then d\<lparr>actState := 3\<rparr> else d)
      else if actState d = 4 then
        (if letter = CHR ''}'' then d\<lparr>actState := 3\<rparr> else d)
      else if actState d = 6 then
        (if letter = CHR ''*'' then d\<lparr>actState := 7\<rparr> else d)
      else if actState d = 7 then
        (if letter = CHR '')'' then d\<lparr>actState := 3\<rparr>
         else if letter \<noteq> CHR ''*'' then d\<lparr>actState := 6\<rparr>
         else d)
      else AbstractDFA_doStep letter d)"

text \<open>The virtual call \<open>doStep(letter)\<close>, resolved by the dynamic class.\<close>

fun doStep :: "dfa_class \<Rightarrow> char \<Rightarrow> AbstractDFA \<Rightarrow> AbstractDFA" where
  "doStep CommentDFA_cls letter d = CommentDFA_doStep letter d"
| "doStep WordDFA_cls letter d = AbstractDFA_doStep letter d"
| "doStep AbstractDFA_cls letter d = AbstractDFA_doStep letter d"

section \<open>Running an automaton\<close>

text \<open>
  The \<open>for\<close> loop of \<open>run\<close> counts with \<open>int i\<close> and compares it with the unsigned
  \<open>inputWord.length()\<close>. Up to index \<open>2^31 - 1\<close> the counter is the index. The increment
  after that index wraps to \<open>-2^31\<close>, which converted to \<open>size_t\<close> is \<open>2^64 - 2^31\<close>, above
  the length of every string, so the loop ends there: the characters the loop reads are
  the first \<open>2^31\<close> of the input, all of them when the input is no longer than that.
\<close>

definition chars_read :: "string \<Rightarrow> string" where
  "chars_read inputWord = take (2 ^ 31) inputWord"

text \<open>One \<open>doStep\<close> per character read, in order.\<close>

fun run_loop :: "dfa_class \<Rightarrow> string \<Rightarrow> AbstractDFA \<Rightarrow> AbstractDFA" where
  "run_loop cls [] d = d"
| "run_loop cls (letter # rest) d = run_loop cls rest (doStep cls letter d)"

definition run :: "dfa_class \<Rightarrow> string \<Rightarrow> AbstractDFA \<Rightarrow> bool \<times> AbstractDFA" where
  "run cls inputWord d = isAccepting (run_loop cls (chars_read inputWord) (reset d))"

section \<open>The two concrete automata\<close>

text \<open>
  \<open>WordDFA::WordDFA\<close>: the loop inserts the transition \<open>(i, word[i]) \<mapsto> i + 1\<close> for
  every index it reaches, then the last state is pushed onto the accepting vector. The
  counter is an \<open>int\<close> compared with the unsigned \<open>word.length()\<close>, as in \<open>run\<close>: the loop
  ends at the end of the word or after index \<open>2^31 - 1\<close>, where the target \<open>i + 1\<close> has
  wrapped. The base constructor's argument \<open>word.length() + 1\<close> and the accepting state
  \<open>word.length()\<close> are \<open>size_t\<close> values narrowed to \<open>int\<close>.
\<close>

function WordDFA_loop :: "string \<Rightarrow> nat \<Rightarrow> AbstractDFA \<Rightarrow> AbstractDFA" where
  "WordDFA_loop word i d =
     (if i < length word \<and> i < 2 ^ 31
      then WordDFA_loop word (i + 1)
             (insert_transition (int i, word ! i) (int32_of (int i + 1)) d)
      else d)"
  by pat_completeness auto
termination
  by (relation "measure (\<lambda>(word, i, d). length word - i)") auto

declare WordDFA_loop.simps [simp del]

definition WordDFA :: "string \<Rightarrow> AbstractDFA" where
  "WordDFA word =
     push_back_final (int32_of (int (length word)))
       (WordDFA_loop word 0 (AbstractDFA_init (int32_of (int (length word) + 1))))"

text \<open>\<open>CommentDFA::CommentDFA\<close>: eight insertions in the order of the source.\<close>

definition CommentDFA :: AbstractDFA where
  "CommentDFA =
     (let d0 = AbstractDFA_init 8;
          d1 = insert_transition (0, CHR ''/'') 1 d0;
          d2 = insert_transition (1, CHR ''/'') 2 d1;
          d3 = insert_transition (2, CHR 0x0A) 3 d2;
          d4 = insert_transition (0, CHR ''{'') 4 d3;
          d5 = insert_transition (4, CHR ''}'') 3 d4;
          d6 = insert_transition (0, CHR ''('') 5 d5;
          d7 = insert_transition (5, CHR ''*'') 6 d6;
          d8 = insert_transition (7, CHR '')'') 3 d7
      in push_back_final 3 d8)"

text \<open>A word automaton and the comment automaton, run from their constructed state.\<close>

definition WordDFA_run :: "string \<Rightarrow> string \<Rightarrow> bool" where
  "WordDFA_run word inputWord = fst (run WordDFA_cls inputWord (WordDFA word))"

definition CommentDFA_run :: "string \<Rightarrow> bool" where
  "CommentDFA_run inputWord = fst (run CommentDFA_cls inputWord CommentDFA)"

section \<open>The copies in automata.cpp\<close>

text \<open>
  Both copies in \<open>automata.cpp\<close> define \<open>isAccepting\<close> as \<open>return actState;\<close>: the
  \<open>int\<close> is converted to \<open>bool\<close>, so the answer is whether the state is non-zero.
\<close>

definition isAccepting_automata_cpp :: "AbstractDFA \<Rightarrow> bool \<times> AbstractDFA" where
  "isAccepting_automata_cpp d = (actState d \<noteq> 0, d)"

text \<open>
  The second copy in \<open>automata.cpp\<close> has the same \<open>WordDFA\<close> constructor, \<open>reset\<close>,
  \<open>AbstractDFA::doStep\<close> and \<open>run\<close> as the implemented unit, so a word automaton of that
  copy runs as follows (its \<open>CommentDFA\<close> is an empty stub and is not modelled).
\<close>

definition WordDFA_run_automata_cpp :: "string \<Rightarrow> string \<Rightarrow> bool" where
  "WordDFA_run_automata_cpp word inputWord =
     fst (isAccepting_automata_cpp
            (run_loop WordDFA_cls (chars_read inputWord) (reset (WordDFA word))))"

section \<open>Call sequences and the state range\<close>

text \<open>
  A call sequence on an object, for the properties that speak of every sequence of
  \<open>reset\<close> and \<open>doStep\<close> calls.
\<close>

datatype call = Reset | DoStep char

fun exec_calls :: "dfa_class \<Rightarrow> call list \<Rightarrow> AbstractDFA \<Rightarrow> AbstractDFA" where
  "exec_calls cls [] d = d"
| "exec_calls cls (Reset # rest) d = exec_calls cls rest (reset d)"
| "exec_calls cls (DoStep letter # rest) d = exec_calls cls rest (doStep cls letter d)"

text \<open>The current state is the trap state or one of the declared states.\<close>

definition state_in_range :: "AbstractDFA \<Rightarrow> bool" where
  "state_in_range d =
     (actState d = trapState \<or> (0 \<le> actState d \<and> actState d \<le> numStates d - 1))"

section \<open>Basic facts about the engine\<close>

lemma int32_of_id: "- (2 ^ 31) \<le> x \<Longrightarrow> x < 2 ^ 31 \<Longrightarrow> int32_of x = x"
  by (simp add: int32_of_def)

lemma int32_of_wrap: "int32_of (2 ^ 31) = - (2 ^ 31)"
  by (simp add: int32_of_def)

lemma chars_read_short: "length x \<le> 2 ^ 31 \<Longrightarrow> chars_read x = x"
  by (simp add: chars_read_def)




lemma isAccepting_loop_member: "isAccepting_loop fs s = (s \<in> set fs)"
  by (induction fs) auto

lemma run_loop_append: "run_loop cls (xs @ ys) d = run_loop cls ys (run_loop cls xs d)"
  by (induction xs arbitrary: d) simp_all

lemma doStep_trapped: "actState d = trapState \<Longrightarrow> doStep cls letter d = d"
  by (cases cls) (simp_all add: CommentDFA_doStep_def AbstractDFA_doStep_def trapState_def)

lemma run_loop_trapped: "actState d = trapState \<Longrightarrow> run_loop cls inputWord d = d"
  by (induction inputWord) (simp_all add: doStep_trapped)

section \<open>The word automaton\<close>

text \<open>
  The constructor's loop only adds transitions: after it, the table holds exactly the
  chain \<open>(i, word[i]) \<mapsto> i + 1\<close> over the indices the loop reached.
\<close>

lemma insert_transition_fields [simp]:
  "actState (insert_transition k v d) = actState d"
  "numStates (insert_transition k v d) = numStates d"
  "finalStates (insert_transition k v d) = finalStates d"
  by (simp_all add: insert_transition_def)

lemma WordDFA_loop_fields:
  "actState (WordDFA_loop w i d) = actState d \<and>
   numStates (WordDFA_loop w i d) = numStates d \<and>
   finalStates (WordDFA_loop w i d) = finalStates d"
proof (induction w i d rule: WordDFA_loop.induct)
  case (1 word i d)
  show ?case
  proof (cases "i < length word \<and> i < 2 ^ 31")
    case True
    with "1" show ?thesis by (subst (1 2 3) WordDFA_loop.simps) simp
  next
    case False
    then have "WordDFA_loop word i d = d"
      by (subst WordDFA_loop.simps) auto
    then show ?thesis by simp
  qed
qed

lemma WordDFA_loop_transitionF:
  "(\<And>s c. int i \<le> s \<Longrightarrow> transitionF d (s, c) = None) \<Longrightarrow>
   transitionF (WordDFA_loop w i d) (s, c) =
     (if s < int i then transitionF d (s, c)
      else if s < int (length w) \<and> s < 2 ^ 31 \<and> w ! nat s = c
        then Some (int32_of (s + 1)) else None)"
proof (induction w i d rule: WordDFA_loop.induct)
  case (1 word i d)
  show ?case
  proof (cases "i < length word \<and> i < 2 ^ 31")
    case False
    then have stop: "WordDFA_loop word i d = d"
      by (subst WordDFA_loop.simps) auto
    from False have "s < int (length word) \<and> s < 2 ^ 31 \<Longrightarrow> s < int i"
      by auto
    moreover have "\<not> s < int i \<Longrightarrow> transitionF d (s, c) = None"
      using "1.prems" [of s c] by simp
    ultimately show ?thesis
      unfolding stop by auto
  next
    case True
    let ?d' = "insert_transition (int i, word ! i) (int32_of (int i + 1)) d"
    have fresh: "transitionF d (int i, word ! i) = None"
      using "1.prems" by simp
    have tf': "transitionF ?d' = (transitionF d)((int i, word ! i) \<mapsto> int32_of (int i + 1))"
      by (simp add: insert_transition_def map_insert_def fresh)
    have above: "\<And>s c. int (i + 1) \<le> s \<Longrightarrow> transitionF ?d' (s, c) = None"
      using "1.prems" by (simp add: tf')
    have step: "transitionF (WordDFA_loop word (i + 1) ?d') (s, c) =
       (if s < int (i + 1) then transitionF ?d' (s, c)
        else if s < int (length word) \<and> s < 2 ^ 31 \<and> word ! nat s = c
          then Some (int32_of (s + 1)) else None)"
      using "1.IH" [OF True above] .
    have unfold: "WordDFA_loop word i d = WordDFA_loop word (i + 1) ?d'"
      using True by (subst WordDFA_loop.simps) simp
    show ?thesis
    proof (cases "s = int i")
      case eq: True
      with True "1.prems" [of "int i" c] show ?thesis
        unfolding unfold step by (simp add: tf')
    next
      case False
      then show ?thesis
        unfolding unfold step by (auto simp add: tf')
    qed
  qed
qed

lemma WordDFA_transitionF:
  "transitionF (WordDFA w) (s, c) =
     (if 0 \<le> s \<and> s < int (length w) \<and> s < 2 ^ 31 \<and> w ! nat s = c
      then Some (int32_of (s + 1)) else None)"
proof -
  let ?d0 = "AbstractDFA_init (int32_of (int (length w) + 1))"
  have "transitionF (WordDFA w) (s, c) = transitionF (WordDFA_loop w 0 ?d0) (s, c)"
    by (simp add: WordDFA_def push_back_final_def)
  also have "\<dots> = (if s < int 0 then transitionF ?d0 (s, c)
      else if s < int (length w) \<and> s < 2 ^ 31 \<and> w ! nat s = c
        then Some (int32_of (s + 1)) else None)"
    by (rule WordDFA_loop_transitionF) (simp add: AbstractDFA_init_def)
  finally show ?thesis by (auto simp add: AbstractDFA_init_def)
qed

lemma WordDFA_fields:
  "actState (WordDFA w) = 0"
  "numStates (WordDFA w) = int32_of (int (length w) + 1)"
  "finalStates (WordDFA w) = [int32_of (int (length w))]"
  by (simp_all add: WordDFA_def push_back_final_def WordDFA_loop_fields AbstractDFA_init_def
      initialState_def)

text \<open>Below the limits of \<open>int\<close> nothing wraps.\<close>

lemma WordDFA_transitionF_small:
  assumes small: "length w < 2 ^ 31"
  shows "transitionF (WordDFA w) (s, c) =
     (if 0 \<le> s \<and> s < int (length w) \<and> w ! nat s = c then Some (s + 1) else None)"
proof (cases "0 \<le> s \<and> s < int (length w)")
  case True
  with small have "int32_of (s + 1) = s + 1" "s < 2 ^ 31"
    by (simp_all add: int32_of_def)
  with True show ?thesis by (simp add: WordDFA_transitionF)
next
  case False
  then show ?thesis by (auto simp add: WordDFA_transitionF)
qed

lemma WordDFA_finalStates_small:
  "length w < 2 ^ 31 \<Longrightarrow> finalStates (WordDFA w) = [int (length w)]"
  by (simp add: WordDFA_fields int32_of_def)

lemma WordDFA_numStates_small:
  "length w < 2 ^ 31 - 1 \<Longrightarrow> numStates (WordDFA w) = int (length w) + 1"
  by (simp add: WordDFA_fields int32_of_def)

text \<open>No step touches the table, the accepting vector or the declared state count.\<close>

lemma AbstractDFA_doStep_frame:
  "transitionF (AbstractDFA_doStep c d) = transitionF d \<and>
   finalStates (AbstractDFA_doStep c d) = finalStates d \<and>
   numStates (AbstractDFA_doStep c d) = numStates d"
  by (simp add: AbstractDFA_doStep_def split: option.splits)

lemma doStep_frame:
  "transitionF (doStep cls c d) = transitionF d \<and>
   finalStates (doStep cls c d) = finalStates d \<and>
   numStates (doStep cls c d) = numStates d"
  by (cases cls) (simp_all add: AbstractDFA_doStep_frame CommentDFA_doStep_def)

lemma run_loop_frame:
  "transitionF (run_loop cls xs d) = transitionF d \<and>
   finalStates (run_loop cls xs d) = finalStates d \<and>
   numStates (run_loop cls xs d) = numStates d"
  by (induction xs arbitrary: d) (simp_all add: doStep_frame)

lemma WordDFA_accepts_from:
  assumes small: "length w < 2 ^ 31"
  shows "transitionF d = transitionF (WordDFA w) \<Longrightarrow> finalStates d = [int (length w)] \<Longrightarrow>
   actState d = int k \<Longrightarrow> k \<le> length w \<Longrightarrow>
   fst (isAccepting (run_loop WordDFA_cls x d)) = (x = drop k w)"
proof (induction x arbitrary: d k)
  case Nil
  then show ?case by (auto simp add: isAccepting_def)
next
  case (Cons c cs)
  show ?case
  proof (cases "k < length w \<and> w ! k = c")
    case True
    let ?d' = "doStep WordDFA_cls c d"
    have st: "actState ?d' = int (Suc k)"
      using True Cons.prems
      by (simp add: AbstractDFA_doStep_def trapState_def WordDFA_transitionF_small [OF small])
    have "fst (isAccepting (run_loop WordDFA_cls cs ?d')) = (cs = drop (Suc k) w)"
      using Cons.prems True
      by (intro Cons.IH [OF _ _ st]) (simp_all add: AbstractDFA_doStep_frame)
    moreover have "drop k w = c # drop (Suc k) w"
      using True Cons_nth_drop_Suc [of k w] by auto
    ultimately show ?thesis by simp
  next
    case False
    let ?d' = "doStep WordDFA_cls c d"
    have st: "actState ?d' = trapState"
      using False Cons.prems
      by (auto simp add: AbstractDFA_doStep_def trapState_def
          WordDFA_transitionF_small [OF small])
    have fs: "finalStates ?d' = [int (length w)]"
      using Cons.prems by (simp add: AbstractDFA_doStep_frame)
    have "run_loop WordDFA_cls cs ?d' = ?d'"
      using st by (rule run_loop_trapped)
    then have "\<not> fst (isAccepting (run_loop WordDFA_cls (c # cs) d))"
      using st fs by (simp add: isAccepting_def trapState_def)
    moreover have "c # cs \<noteq> drop k w"
    proof (cases "k < length w")
      case True
      with False have "w ! k \<noteq> c" by simp
      moreover have "drop k w = w ! k # drop (Suc k) w"
        using True Cons_nth_drop_Suc [of k w] by simp
      ultimately show ?thesis by simp
    next
      case False
      then show ?thesis by simp
    qed
    ultimately show ?thesis by simp
  qed
qed

lemma chars_read_eq_word:
  assumes small: "length w < 2 ^ 31"
  shows "(chars_read x = w) = (x = w)"
proof
  assume eq: "chars_read x = w"
  then have "length (chars_read x) = length w" by simp
  then have "min (length x) (2 ^ 31) = length w"
    by (simp add: chars_read_def)
  with small have "length x \<le> 2 ^ 31" by simp
  with eq show "x = w" by (simp add: chars_read_short)
next
  assume "x = w"
  with small show "chars_read x = w" by (simp add: chars_read_short)
qed

lemma WordDFA_run_iff:
  assumes small: "length w < 2 ^ 31"
  shows "WordDFA_run w x = (x = w)"
proof -
  have "fst (isAccepting (run_loop WordDFA_cls (chars_read x) (reset (WordDFA w))))
      = (chars_read x = drop 0 w)"
    by (rule WordDFA_accepts_from [OF small])
      (simp_all add: reset_def WordDFA_fields(1) WordDFA_finalStates_small [OF small]
        initialState_def)
  then show ?thesis
    by (simp add: WordDFA_run_def run_def chars_read_eq_word [OF small])
qed






text \<open>
  Claim C7. The automaton of the empty word has the single state 0, which is its initial
  state and its only accepting state; it accepts the empty input and rejects every
  non-empty input \<open>x\<close>, the one-letter input \<open>a\<close> among them.
\<close>

theorem WordDFA_empty_word:
  "actState (WordDFA []) = initialState \<and> initialState = 0 \<and>
   finalStates (WordDFA []) = [0] \<and> numStates (WordDFA []) = 1 \<and>
   WordDFA_run [] [] \<and> (x \<noteq> [] \<longrightarrow> \<not> WordDFA_run [] x) \<and> \<not> WordDFA_run [] ''a''"
  by (simp add: WordDFA_fields WordDFA_run_iff initialState_def int32_of_def)

theorem WordDFA_empty_word_witness:
  "''ab'' \<noteq> [] \<and> \<not> WordDFA_run [] ''ab'' \<and> WordDFA_run [] []"
  using WordDFA_empty_word [where x = "''ab''"] by simp

section \<open>The comment automaton\<close>

text \<open>The table and the other fields the constructor leaves behind.\<close>

lemma CommentDFA_transitionF:
  "transitionF CommentDFA =
     [(0, CHR ''/'') \<mapsto> 1, (1, CHR ''/'') \<mapsto> 2, (2, CHR 0x0A) \<mapsto> 3, (0, CHR ''{'') \<mapsto> 4,
      (4, CHR ''}'') \<mapsto> 3, (0, CHR ''('') \<mapsto> 5, (5, CHR ''*'') \<mapsto> 6, (7, CHR '')'') \<mapsto> 3]"
  by (simp add: CommentDFA_def Let_def insert_transition_def map_insert_def
      push_back_final_def AbstractDFA_init_def)

lemma CommentDFA_fields:
  "actState CommentDFA = 0" "numStates CommentDFA = 8" "finalStates CommentDFA = [3]"
  by (simp_all add: CommentDFA_def Let_def insert_transition_def push_back_final_def
      AbstractDFA_init_def initialState_def)

text \<open>On an input of at most \<open>2^31\<close> characters \<open>run\<close> reads every character.\<close>

lemma CommentDFA_run_short:
  "length x \<le> 2 ^ 31 \<Longrightarrow>
   CommentDFA_run x = fst (isAccepting (run_loop CommentDFA_cls x (reset CommentDFA)))"
  by (simp add: CommentDFA_run_def run_def chars_read_short)

lemma run_line_comment: "CommentDFA_run (''// comment'' @ [CHR 0x0A])"
  by (subst CommentDFA_run_short, simp, code_simp)

lemma run_brace_comment: "CommentDFA_run ''{ comment }''"
  by (subst CommentDFA_run_short, simp, code_simp)

lemma run_paren_comment: "CommentDFA_run (CHR ''('' # ''* comment *'' @ [CHR '')''])"
  by (subst CommentDFA_run_short, simp, code_simp)

lemma run_paren_comment_stars: "CommentDFA_run (CHR ''('' # ''* a ** b *'' @ [CHR '')''])"
  by (subst CommentDFA_run_short, simp, code_simp)

lemma run_line_unterminated: "\<not> CommentDFA_run ''// unterminated''"
  by (subst CommentDFA_run_short, simp, code_simp)

lemma run_brace_unterminated: "\<not> CommentDFA_run ''{ unterminated''"
  by (subst CommentDFA_run_short, simp, code_simp)

lemma run_paren_unterminated: "\<not> CommentDFA_run (CHR ''('' # ''* unterminated'')"
  by (subst CommentDFA_run_short, simp, code_simp)

lemma run_not_a_comment: "\<not> CommentDFA_run ''not a comment''"
  by (subst CommentDFA_run_short, simp, code_simp)

text \<open>
  Claim C2. The comment automaton accepts the line comment ending in a newline, the brace
  comment, the parenthesis-star comment and the parenthesis-star comment with two
  asterisks in its body; it rejects the three unterminated comments and the input
  \<open>not a comment\<close>. (The opening and closing parentheses are written as separate
  characters around the rest of the string.)
\<close>

theorem CommentDFA_run_listed_cases:
  "CommentDFA_run (''// comment'' @ [CHR 0x0A]) \<and>
   CommentDFA_run ''{ comment }'' \<and>
   CommentDFA_run (CHR ''('' # ''* comment *'' @ [CHR '')'']) \<and>
   CommentDFA_run (CHR ''('' # ''* a ** b *'' @ [CHR '')'']) \<and>
   \<not> CommentDFA_run ''// unterminated'' \<and>
   \<not> CommentDFA_run ''{ unterminated'' \<and>
   \<not> CommentDFA_run (CHR ''('' # ''* unterminated'') \<and>
   \<not> CommentDFA_run ''not a comment''"
  using run_line_comment run_brace_comment run_paren_comment run_paren_comment_stars
    run_line_unterminated run_brace_unterminated run_paren_unterminated run_not_a_comment
  by blast

text \<open>
  Claim C5. In state 7 the comment automaton's step goes to state 3 on a closing
  parenthesis, stays in state 7 on an asterisk, and goes to state 6 on every other
  character.
\<close>

theorem CommentDFA_doStep_state7:
  "actState d = 7 \<Longrightarrow>
   actState (CommentDFA_doStep c d) =
     (if c = CHR '')'' then 3 else if c = CHR ''*'' then 7 else 6)"
  by (simp add: CommentDFA_doStep_def)

theorem CommentDFA_doStep_state7_witness:
  "actState (CommentDFA\<lparr>actState := 7\<rparr>) = 7 \<and>
   actState (CommentDFA_doStep (CHR '')'') (CommentDFA\<lparr>actState := 7\<rparr>)) = 3 \<and>
   actState (CommentDFA_doStep (CHR ''*'') (CommentDFA\<lparr>actState := 7\<rparr>)) = 7 \<and>
   actState (CommentDFA_doStep (CHR ''x'') (CommentDFA\<lparr>actState := 7\<rparr>)) = 6"
proof -
  have h: "actState (CommentDFA\<lparr>actState := 7\<rparr>) = 7" by simp
  show ?thesis
    using h CommentDFA_doStep_state7 [OF h, of "CHR '')''"]
      CommentDFA_doStep_state7 [OF h, of "CHR ''*''"]
      CommentDFA_doStep_state7 [OF h, of "CHR ''x''"]
    by simp
qed









section \<open>Trap absorption\<close>

text \<open>
  Claim C4. In the trap state a step changes nothing, for the generic step and for the
  comment automaton's override alike (so for every dynamic class); hence an automaton
  that is in the trap state after a prefix of the input is in the trap state after
  every continuation of that prefix.
\<close>

theorem trap_absorption:
  "(actState d = trapState \<longrightarrow>
      AbstractDFA_doStep c d = d \<and> CommentDFA_doStep c d = d \<and> doStep cls c d = d) \<and>
   (actState (run_loop cls pre d0) = trapState \<longrightarrow>
      actState (run_loop cls (pre @ continuation) d0) = trapState)"
  using doStep_trapped [of d CommentDFA_cls c] doStep_trapped [of d WordDFA_cls c]
  by (simp add: doStep_trapped run_loop_append run_loop_trapped)

theorem trap_absorption_witness:
  "actState (CommentDFA\<lparr>actState := trapState\<rparr>) = trapState \<and>
   AbstractDFA_doStep (CHR ''/'') (CommentDFA\<lparr>actState := trapState\<rparr>)
     = CommentDFA\<lparr>actState := trapState\<rparr> \<and>
   CommentDFA_doStep (CHR ''/'') (CommentDFA\<lparr>actState := trapState\<rparr>)
     = CommentDFA\<lparr>actState := trapState\<rparr> \<and>
   actState (run_loop CommentDFA_cls ''x'' (reset CommentDFA)) = trapState \<and>
   actState (run_loop CommentDFA_cls (''x'' @ ''{}'') (reset CommentDFA)) = trapState"
proof -
  have h: "actState (run_loop CommentDFA_cls ''x'' (reset CommentDFA)) = trapState"
    by code_simp
  show ?thesis
    using h trap_absorption
      [where d = "CommentDFA\<lparr>actState := trapState\<rparr>" and c = "CHR ''/''"
         and cls = CommentDFA_cls and pre = "''x''" and ?d0.0 = "reset CommentDFA"
         and continuation = "''{}''"]
    by simp
qed

section \<open>The declared state count\<close>

lemma reset_numStates: "reset (d\<lparr>numStates := n\<rparr>) = (reset d)\<lparr>numStates := n\<rparr>"
  by (simp add: reset_def)

lemma AbstractDFA_doStep_numStates:
  "AbstractDFA_doStep c (d\<lparr>numStates := n\<rparr>) = (AbstractDFA_doStep c d)\<lparr>numStates := n\<rparr>"
  by (simp add: AbstractDFA_doStep_def split: option.splits)

lemma CommentDFA_doStep_numStates:
  "CommentDFA_doStep c (d\<lparr>numStates := n\<rparr>) = (CommentDFA_doStep c d)\<lparr>numStates := n\<rparr>"
  by (simp add: CommentDFA_doStep_def AbstractDFA_doStep_numStates)

lemma doStep_numStates:
  "doStep cls c (d\<lparr>numStates := n\<rparr>) = (doStep cls c d)\<lparr>numStates := n\<rparr>"
  by (cases cls) (simp_all add: AbstractDFA_doStep_numStates CommentDFA_doStep_numStates)

lemma run_loop_numStates:
  "run_loop cls xs (d\<lparr>numStates := n\<rparr>) = (run_loop cls xs d)\<lparr>numStates := n\<rparr>"
  by (induction xs arbitrary: d) (simp_all add: doStep_numStates)

lemma run_numStates:
  "run cls xs (d\<lparr>numStates := n\<rparr>) =
     (fst (run cls xs d), (snd (run cls xs d))\<lparr>numStates := n\<rparr>)"
  by (simp add: run_def reset_numStates run_loop_numStates isAccepting_def)

text \<open>
  Claim C8. The declared state count has no influence on what an automaton does. Take an
  automaton \<open>d\<close> and the automaton that differs from it only in \<open>numStates\<close>, which is
  \<open>d\<close> with that field set to some \<open>n\<close>: \<open>reset\<close>, \<open>doStep\<close> (of every class) and \<open>run\<close>
  leave the two in the same current state, still differing in nothing but \<open>numStates\<close>,
  and \<open>isAccepting\<close> and \<open>run\<close> give the same answer on both, for every input.
\<close>

theorem numStates_not_observable:
  "reset (d\<lparr>numStates := n\<rparr>) = (reset d)\<lparr>numStates := n\<rparr> \<and>
   actState (reset (d\<lparr>numStates := n\<rparr>)) = actState (reset d) \<and>
   doStep cls c (d\<lparr>numStates := n\<rparr>) = (doStep cls c d)\<lparr>numStates := n\<rparr> \<and>
   actState (doStep cls c (d\<lparr>numStates := n\<rparr>)) = actState (doStep cls c d) \<and>
   fst (isAccepting (d\<lparr>numStates := n\<rparr>)) = fst (isAccepting d) \<and>
   fst (run cls inputWord (d\<lparr>numStates := n\<rparr>)) = fst (run cls inputWord d) \<and>
   snd (run cls inputWord (d\<lparr>numStates := n\<rparr>))
     = (snd (run cls inputWord d))\<lparr>numStates := n\<rparr> \<and>
   actState (snd (run cls inputWord (d\<lparr>numStates := n\<rparr>)))
     = actState (snd (run cls inputWord d))"
  by (simp add: reset_numStates doStep_numStates run_numStates isAccepting_def)

theorem numStates_not_observable_witness:
  "fst (run CommentDFA_cls ''{}'' (CommentDFA\<lparr>numStates := 0\<rparr>))
     = fst (run CommentDFA_cls ''{}'' CommentDFA) \<and>
   actState (snd (run CommentDFA_cls ''{}'' (CommentDFA\<lparr>numStates := 0\<rparr>)))
     = actState (snd (run CommentDFA_cls ''{}'' CommentDFA))"
  using numStates_not_observable
    [where d = CommentDFA and n = 0 and cls = CommentDFA_cls and inputWord = "''{}''"]
  by simp

section \<open>The state range\<close>

lemma reset_frame:
  "transitionF (reset d) = transitionF d \<and> finalStates (reset d) = finalStates d \<and>
   numStates (reset d) = numStates d"
  by (simp add: reset_def)

lemma WordDFA_step_in_range:
  assumes small: "length w < 2 ^ 31 - 1"
    and tf: "transitionF d = transitionF (WordDFA w)"
    and ns: "numStates d = int (length w) + 1"
  shows "state_in_range (AbstractDFA_doStep c d)"
proof (cases "transitionF d (actState d, c)")
  case None
  then show ?thesis
    by (simp add: state_in_range_def AbstractDFA_doStep_def)
next
  case (Some target)
  moreover from small have "length w < 2 ^ 31" by simp
  ultimately have "0 \<le> actState d \<and> actState d < int (length w) \<and> target = actState d + 1"
    by (simp add: tf WordDFA_transitionF_small split: if_splits)
  with Some ns show ?thesis
    by (simp add: state_in_range_def AbstractDFA_doStep_def)
qed

lemma WordDFA_exec_in_range:
  assumes small: "length w < 2 ^ 31 - 1"
  shows "transitionF d = transitionF (WordDFA w) \<Longrightarrow> numStates d = int (length w) + 1 \<Longrightarrow>
   state_in_range d \<Longrightarrow>
   state_in_range (exec_calls WordDFA_cls calls d) \<and>
   numStates (exec_calls WordDFA_cls calls d) = int (length w) + 1"
proof (induction calls arbitrary: d)
  case Nil
  then show ?case by simp
next
  case (Cons a calls)
  show ?case
  proof (cases a)
    case Reset
    have "state_in_range (reset d)"
      using Cons.prems by (simp add: state_in_range_def reset_def initialState_def)
    with Cons.prems Reset show ?thesis
      using Cons.IH [of "reset d"] by (simp add: reset_frame)
  next
    case (DoStep c)
    have "state_in_range (AbstractDFA_doStep c d)"
      using Cons.prems by (simp add: WordDFA_step_in_range [OF small])
    with Cons.prems DoStep show ?thesis
      using Cons.IH [of "AbstractDFA_doStep c d"] by (simp add: AbstractDFA_doStep_frame)
  qed
qed

lemma CommentDFA_target:
  "transitionF CommentDFA (s, c) = Some target \<Longrightarrow> 0 \<le> target \<and> target \<le> 7"
  by (simp add: CommentDFA_transitionF split: if_splits)

lemma CommentDFA_step_in_range:
  assumes tf: "transitionF d = transitionF CommentDFA"
    and ns: "numStates d = 8" and inv: "state_in_range d"
  shows "state_in_range (CommentDFA_doStep c d)"
proof -
  have base: "state_in_range (AbstractDFA_doStep c d)"
  proof (cases "transitionF d (actState d, c)")
    case None
    with inv show ?thesis by (simp add: state_in_range_def AbstractDFA_doStep_def)
  next
    case (Some target)
    then have "0 \<le> target \<and> target \<le> 7"
      using CommentDFA_target [of "actState d" c target] by (simp add: tf)
    with Some ns inv show ?thesis by (simp add: state_in_range_def AbstractDFA_doStep_def)
  qed
  show ?thesis
  proof (cases "actState d \<in> {2, 4, 6, 7}")
    case True
    with ns show ?thesis
      by (auto simp add: CommentDFA_doStep_def state_in_range_def)
  next
    case False
    then have "CommentDFA_doStep c d = AbstractDFA_doStep c d"
      by (simp add: CommentDFA_doStep_def)
    with base show ?thesis by simp
  qed
qed

lemma CommentDFA_exec_in_range:
  "transitionF d = transitionF CommentDFA \<Longrightarrow> numStates d = 8 \<Longrightarrow> state_in_range d \<Longrightarrow>
   state_in_range (exec_calls CommentDFA_cls calls d) \<and>
   numStates (exec_calls CommentDFA_cls calls d) = 8"
proof (induction calls arbitrary: d)
  case Nil
  then show ?case by simp
next
  case (Cons a calls)
  show ?case
  proof (cases a)
    case Reset
    have "state_in_range (reset d)"
      using Cons.prems by (simp add: state_in_range_def reset_def initialState_def)
    with Cons.prems Reset show ?thesis
      using Cons.IH [of "reset d"] by (simp add: reset_frame)
  next
    case (DoStep c)
    have "state_in_range (CommentDFA_doStep c d)"
      using Cons.prems by (simp add: CommentDFA_step_in_range)
    moreover have "transitionF (CommentDFA_doStep c d) = transitionF d \<and>
        numStates (CommentDFA_doStep c d) = numStates d"
      using doStep_frame [of CommentDFA_cls c d] by simp
    ultimately show ?thesis
      using Cons.prems DoStep Cons.IH [of "CommentDFA_doStep c d"] by simp
  qed
qed

text \<open>
  Claim C9, as the code has it. The word automaton of a word \<open>w\<close> shorter than
  \<open>2^31 - 1\<close> characters declares \<open>length w + 1\<close> states and the comment automaton
  declares 8; after construction and after every sequence of \<open>reset\<close> and \<open>doStep\<close>
  calls, the current state of either is the trap state \<open>-1\<close> or lies between 0 and
  \<open>numStates - 1\<close>.
\<close>

theorem state_range_invariant:
  "trapState = - 1 \<and>
   (length w < 2 ^ 31 - 1 \<longrightarrow>
    numStates (exec_calls WordDFA_cls calls (WordDFA w)) = int (length w) + 1 \<and>
    (actState (exec_calls WordDFA_cls calls (WordDFA w)) = trapState \<or>
     (0 \<le> actState (exec_calls WordDFA_cls calls (WordDFA w)) \<and>
      actState (exec_calls WordDFA_cls calls (WordDFA w))
        \<le> numStates (exec_calls WordDFA_cls calls (WordDFA w)) - 1))) \<and>
   numStates (exec_calls CommentDFA_cls calls' CommentDFA) = 8 \<and>
   (actState (exec_calls CommentDFA_cls calls' CommentDFA) = trapState \<or>
    (0 \<le> actState (exec_calls CommentDFA_cls calls' CommentDFA) \<and>
     actState (exec_calls CommentDFA_cls calls' CommentDFA)
       \<le> numStates (exec_calls CommentDFA_cls calls' CommentDFA) - 1))"
proof -
  have w: "state_in_range (exec_calls WordDFA_cls calls (WordDFA w)) \<and>
      numStates (exec_calls WordDFA_cls calls (WordDFA w)) = int (length w) + 1"
    if small: "length w < 2 ^ 31 - 1"
  proof -
    have ns: "numStates (WordDFA w) = int (length w) + 1"
      using small by (rule WordDFA_numStates_small)
    have "state_in_range (WordDFA w)"
      by (simp add: state_in_range_def WordDFA_fields(1) ns)
    then show ?thesis
      using ns by (intro WordDFA_exec_in_range [OF small]) simp_all
  qed
  have "state_in_range CommentDFA"
    by (simp add: state_in_range_def CommentDFA_fields)
  then have c: "state_in_range (exec_calls CommentDFA_cls calls' CommentDFA) \<and>
      numStates (exec_calls CommentDFA_cls calls' CommentDFA) = 8"
    by (intro CommentDFA_exec_in_range) (simp_all add: CommentDFA_fields)
  from w c show ?thesis
    unfolding state_in_range_def by (auto simp add: trapState_def)
qed

theorem state_range_invariant_witness:
  "length ''ab'' < 2 ^ 31 - 1 \<and>
   numStates (exec_calls WordDFA_cls [DoStep (CHR ''a''), Reset, DoStep (CHR ''b'')]
      (WordDFA ''ab'')) = 3 \<and>
   actState (exec_calls WordDFA_cls [DoStep (CHR ''a''), Reset, DoStep (CHR ''b'')]
      (WordDFA ''ab'')) = trapState \<and>
   numStates (exec_calls CommentDFA_cls [DoStep (CHR ''(''), DoStep (CHR ''*''), DoStep (CHR ''*'')]
      CommentDFA) = 8 \<and>
   actState (exec_calls CommentDFA_cls [DoStep (CHR ''(''), DoStep (CHR ''*''), DoStep (CHR ''*'')]
      CommentDFA) = 7"
proof -
  have h: "length ''ab'' < 2 ^ 31 - 1" by simp
  have a: "actState (exec_calls WordDFA_cls [DoStep (CHR ''a''), Reset, DoStep (CHR ''b'')]
      (WordDFA ''ab'')) = trapState"
    by (simp add: AbstractDFA_doStep_def reset_def initialState_def trapState_def
        WordDFA_transitionF WordDFA_fields int32_of_def)
  have b: "actState (exec_calls CommentDFA_cls
      [DoStep (CHR ''(''), DoStep (CHR ''*''), DoStep (CHR ''*'')] CommentDFA) = 7"
    by code_simp
  show ?thesis
    using h a b state_range_invariant
      [where calls = "[DoStep (CHR ''a''), Reset, DoStep (CHR ''b'')]" and w = "''ab''"
         and calls' = "[DoStep (CHR ''(''), DoStep (CHR ''*''), DoStep (CHR ''*'')]"]
    by simp
qed

text \<open>
  The claim as stated, for every word, fails at a word of \<open>2^31 - 1\<close> characters: the
  constructor's argument \<open>word.length() + 1\<close> is \<open>2^31\<close>, which narrowed to \<open>int\<close> is
  \<open>-2^31\<close>, so the declared state count is not \<open>length w + 1\<close> and the initial state 0
  is above \<open>numStates - 1\<close> right after construction.
\<close>

theorem state_range_invariant_counterexample:
  "numStates (exec_calls WordDFA_cls [] (WordDFA (replicate (2 ^ 31 - 1) (CHR ''a''))))
     \<noteq> int (length (replicate (2 ^ 31 - 1) (CHR ''a''))) + 1 \<and>
   \<not> (actState (exec_calls WordDFA_cls [] (WordDFA (replicate (2 ^ 31 - 1) (CHR ''a''))))
          = trapState \<or>
        (0 \<le> actState (exec_calls WordDFA_cls [] (WordDFA (replicate (2 ^ 31 - 1) (CHR ''a''))))
         \<and> actState (exec_calls WordDFA_cls [] (WordDFA (replicate (2 ^ 31 - 1) (CHR ''a''))))
           \<le> numStates (exec_calls WordDFA_cls [] (WordDFA (replicate (2 ^ 31 - 1) (CHR ''a''))))
               - 1))"
proof -
  let ?w = "replicate (2 ^ 31 - 1) (CHR ''a'')"
  have len: "int (length ?w) + 1 = 2 ^ 31"
    by (simp only: length_replicate) simp
  have ns: "numStates (WordDFA ?w) = - (2 ^ 31)"
    by (simp only: WordDFA_fields len int32_of_wrap)
  have st: "actState (WordDFA ?w) = 0"
    by (rule WordDFA_fields)
  show ?thesis
    by (simp only: exec_calls.simps ns st len trapState_def) simp
qed

section \<open>The acceptance query and its two copies\<close>

text \<open>
  The implemented \<open>isAccepting\<close> answers membership of the current state in the
  accepting vector and hands the object back unchanged, whatever the class.
\<close>

lemma isAccepting_member: "isAccepting d = (actState d \<in> set (finalStates d), d)"
  by (simp add: isAccepting_def isAccepting_loop_member)

lemma isAccepting_automata_cpp_pure: "snd (isAccepting_automata_cpp d) = d"
  by (simp add: isAccepting_automata_cpp_def)

lemma isAccepting_copies_agree_iff:
  "(fst (isAccepting d) = fst (isAccepting_automata_cpp d)) =
     ((actState d \<in> set (finalStates d)) = (actState d \<noteq> 0))"
  by (simp add: isAccepting_member isAccepting_automata_cpp_def)

text \<open>
  Claim C3 says that \<open>isAccepting\<close> returns true exactly when the current state is in the
  accepting set, without changing the object. The implemented copy does so
  (\<open>isAccepting_member\<close>), but the copy in \<open>automata.cpp\<close> does not: the word automaton
  of the empty word is in state 0, which is its accepting state, and that copy answers
  false, so that its \<open>run\<close> rejects the empty input; and after the letter \<open>b\<close> the
  automaton of the word \<open>a\<close> is in the trap state, which is not accepting, and that copy
  answers true.
\<close>

theorem isAccepting_automata_cpp_not_membership:
  "actState (WordDFA []) \<in> set (finalStates (WordDFA [])) \<and>
   fst (isAccepting_automata_cpp (WordDFA [])) = False \<and>
   WordDFA_run_automata_cpp [] [] = False \<and>
   actState (run_loop WordDFA_cls ''b'' (reset (WordDFA ''a'')))
     \<notin> set (finalStates (run_loop WordDFA_cls ''b'' (reset (WordDFA ''a'')))) \<and>
   WordDFA_run_automata_cpp ''a'' ''b'' = True"
proof -
  have empty: "actState (WordDFA []) = 0" "finalStates (WordDFA []) = [0]"
    by (simp_all add: WordDFA_fields int32_of_def)
  have read: "chars_read [] = []" "chars_read ''b'' = ''b''"
    by (simp_all add: chars_read_short)
  have run_empty: "WordDFA_run_automata_cpp [] [] = False"
    by (simp add: WordDFA_run_automata_cpp_def isAccepting_automata_cpp_def reset_def
        initialState_def read)
  have st: "actState (run_loop WordDFA_cls ''b'' (reset (WordDFA ''a''))) = - 1"
    by (simp add: AbstractDFA_doStep_def reset_def initialState_def trapState_def
        WordDFA_transitionF)
  have fs: "finalStates (run_loop WordDFA_cls ''b'' (reset (WordDFA ''a''))) = [1]"
    by (simp add: run_loop_frame reset_frame WordDFA_fields int32_of_def del: run_loop.simps)
  have run_b: "WordDFA_run_automata_cpp ''a'' ''b'' = True"
    unfolding WordDFA_run_automata_cpp_def isAccepting_automata_cpp_def read st by simp
  show ?thesis
    unfolding st fs run_empty run_b
    by (simp add: empty isAccepting_automata_cpp_def)
qed

text \<open>
  Claim C10 says that the two copies of \<open>isAccepting\<close> return the same boolean for every
  current state and every accepting vector. They do not: with current state 0 and
  accepting vector \<open>[0]\<close> the implemented copy answers true and the copy in
  \<open>automata.cpp\<close> false; with current state 1 and accepting vector \<open>[3]\<close> (the comment
  automaton after one slash) it is the other way round.
\<close>

theorem isAccepting_copies_disagree:
  "fst (isAccepting (AbstractDFA_init 1\<lparr>finalStates := [0]\<rparr>)) = True \<and>
   fst (isAccepting_automata_cpp (AbstractDFA_init 1\<lparr>finalStates := [0]\<rparr>)) = False \<and>
   fst (isAccepting (CommentDFA\<lparr>actState := 1\<rparr>)) = False \<and>
   fst (isAccepting_automata_cpp (CommentDFA\<lparr>actState := 1\<rparr>)) = True"
  by (simp add: isAccepting_member isAccepting_automata_cpp_def AbstractDFA_init_def
      initialState_def CommentDFA_fields)

end
